theory Spec2Isabelle
  imports Main
begin

section \<open>Shared conventions\<close>

text \<open>
  The peer program is C++.  A \<open>std::string\<close> is a byte string, modelled as \<open>string\<close>
  (a \<open>char list\<close>, one \<open>char\<close> per byte).  An \<open>int\<close> is a 32-bit two's complement
  integer, modelled as \<open>int\<close> with the wrap-around written out (\<open>wrap32\<close>) where the
  source does arithmetic that can leave the range.  Overflow of a signed product or
  difference is undefined in C++; \<open>wrap32\<close> is what the usual compilers produce, and the
  theorems below state their range conditions so that no result rests on it.  A
  \<open>size_t\<close> is modelled as \<open>nat\<close>.

  The handlers of the source signal failure by \<open>throw string(...)\<close>, which the worker
  loops catch with \<open>catch (const string&)\<close>.  The standard library throws its own
  exception classes (\<open>std::invalid_argument\<close>, \<open>std::out_of_range\<close>), which no handler of
  the source catches.  Reads outside a container and \<open>pop_back\<close> on an empty string are
  undefined behaviour in C++ and are kept as an outcome of their own.
\<close>

datatype error =
    Thrown string          \<comment> \<open>\<open>throw string(msg)\<close>\<close>
  | InvalidArgument        \<comment> \<open>\<open>std::invalid_argument\<close>, from \<open>stoi\<close>\<close>
  | OutOfRange             \<comment> \<open>\<open>std::out_of_range\<close>, from \<open>stoi\<close> and \<open>substr\<close>\<close>
  | UndefinedBehaviour     \<comment> \<open>\<open>v[i]\<close> past the end, \<open>pop_back\<close> on an empty string\<close>

definition PIECE_SIZE :: nat where
  "PIECE_SIZE = 1024"

definition wrap32 :: "int \<Rightarrow> int" where
  "wrap32 x = (x + 2147483648) mod 4294967296 - 2147483648"

subsection \<open>\<open>std::to_string\<close> and \<open>std::stoi\<close>\<close>

definition digit_char :: "nat \<Rightarrow> char" where
  "digit_char d = char_of (48 + d)"

fun to_string_nat :: "nat \<Rightarrow> string" where
  "to_string_nat n =
     (if n < 10 then [digit_char n]
      else to_string_nat (n div 10) @ [digit_char (n mod 10)])"

declare to_string_nat.simps [simp del]

definition to_string :: "int \<Rightarrow> string" where
  "to_string i = (if i < 0 then CHR ''-'' # to_string_nat (nat (- i)) else to_string_nat (nat i))"

definition isspace :: "char \<Rightarrow> bool" where
  "isspace c \<longleftrightarrow> c = CHR '' '' \<or> (9::nat) \<le> of_char c \<and> of_char c \<le> (13::nat)"

definition isdigit :: "char \<Rightarrow> bool" where
  "isdigit c \<longleftrightarrow> (48::nat) \<le> of_char c \<and> of_char c \<le> (57::nat)"

definition digit_value :: "char \<Rightarrow> nat" where
  "digit_value c = of_char c - 48"

definition digits_value :: "string \<Rightarrow> nat" where
  "digits_value ds = foldl (\<lambda>acc c. acc * 10 + digit_value c) 0 ds"

text \<open>
  \<open>std::stoi(s)\<close> in base 10: leading white space is skipped, one sign is accepted, the
  longest run of decimal digits is converted and whatever follows is ignored.  No digit
  at all is \<open>std::invalid_argument\<close>; a value outside \<open>int\<close> is \<open>std::out_of_range\<close>.
\<close>

definition stoi :: "string \<Rightarrow> error + int" where
  "stoi s =
     (let s1 = dropWhile isspace s;
          neg = (s1 \<noteq> [] \<and> hd s1 = CHR ''-'');
          s2 = (if s1 \<noteq> [] \<and> (hd s1 = CHR ''-'' \<or> hd s1 = CHR ''+'') then tl s1 else s1);
          ds = takeWhile isdigit s2
      in if ds = [] then Inl InvalidArgument
         else let v = (if neg then - int (digits_value ds) else int (digits_value ds))
              in if v < - 2147483648 \<or> 2147483647 < v then Inl OutOfRange else Inr v)"

subsection \<open>\<open>Utils::tokenize\<close>\<close>

text \<open>
  The loop of \<open>Utils::tokenize\<close> over the characters of \<open>buffer\<close>, with the token under
  construction \<open>temp\<close> and the tokens found so far \<open>ans\<close>: empty tokens are dropped.
\<close>

fun tokenize_loop :: "string \<Rightarrow> char \<Rightarrow> string \<Rightarrow> string list \<Rightarrow> string list" where
  "tokenize_loop [] separator temp ans = (if temp \<noteq> [] then ans @ [temp] else ans)"
| "tokenize_loop (it # buffer) separator temp ans =
     (if it = separator
      then tokenize_loop buffer separator [] (if temp \<noteq> [] then ans @ [temp] else ans)
      else tokenize_loop buffer separator (temp @ [it]) ans)"

definition tokenize :: "string \<Rightarrow> char \<Rightarrow> string list" where
  "tokenize buffer separator = tokenize_loop buffer separator [] []"

section \<open>The local file registry (\<open>Files\<close>)\<close>

text \<open>
  \<open>Files\<close> holds two static maps: \<open>m_fileNameToFilePath\<close>, from (file name, group name) to
  a path, and \<open>m_filePathToAvailablePieces\<close>, from a path to a \<open>vector<int>\<close> of piece
  numbers.  The vector keeps order and repetitions, so it is a list.  The mutexes
  serialise the operations; each operation is one step on the pair of maps.
\<close>

record files =
  m_fileNameToFilePath :: "(string \<times> string) \<rightharpoonup> string"
  m_filePathToAvailablePieces :: "string \<rightharpoonup> int list"

definition addFilepath :: "string \<Rightarrow> string \<Rightarrow> string \<Rightarrow> files \<Rightarrow> files" where
  "addFilepath fileName groupName filePath st =
     st\<lparr>m_fileNameToFilePath := (m_fileNameToFilePath st)((fileName, groupName) \<mapsto> filePath)\<rparr>"

text \<open>\<open>m[filePath]\<close> creates an empty vector for a path that has none; \<open>push_back\<close> appends.\<close>

definition addPieceToFilepath :: "string \<Rightarrow> int \<Rightarrow> files \<Rightarrow> files" where
  "addPieceToFilepath filePath pieceNumber st =
     st\<lparr>m_filePathToAvailablePieces := (m_filePathToAvailablePieces st)
           (filePath \<mapsto> (case m_filePathToAvailablePieces st filePath of
                             None \<Rightarrow> [] | Some pieces \<Rightarrow> pieces) @ [pieceNumber])\<rparr>"

text \<open>
  The three queries look their key up with \<open>find\<close>, which inserts nothing: they return a
  value and leave both maps as they are.
\<close>

definition giveFilePath :: "string \<Rightarrow> string \<Rightarrow> files \<Rightarrow> string" where
  "giveFilePath fileName groupName st =
     (case m_fileNameToFilePath st (fileName, groupName) of
        Some filePath \<Rightarrow> filePath | None \<Rightarrow> [])"

definition giveAvailablePieces :: "string \<Rightarrow> files \<Rightarrow> string" where
  "giveAvailablePieces filePath st =
     (case m_filePathToAvailablePieces st filePath of
        None \<Rightarrow> []
      | Some pieces \<Rightarrow> concat (map (\<lambda>pieceNumber. '' '' @ to_string pieceNumber) pieces))"

definition isPieceAvailable :: "string \<Rightarrow> int \<Rightarrow> files \<Rightarrow> bool" where
  "isPieceAvailable filePath pieceNumber st =
     (case m_filePathToAvailablePieces st filePath of
        None \<Rightarrow> False
      | Some pieces \<Rightarrow> pieceNumber \<in> set pieces)"

section \<open>The seeder (\<open>Seeder::executeCommand\<close>, \<open>Seeder::handleLeecher\<close>)\<close>

text \<open>
  The disk, as \<open>give_piece\<close> and \<open>findSHA\<close> see it.  A path with no entry (\<open>None\<close>) does not
  exist: \<open>open(path, O_RDONLY)\<close> fails and \<open>strerror(errno)\<close> is
  \<open>No such file or directory\<close>.  \<open>Unopenable err\<close> is a path on which \<open>open\<close> fails for
  another reason, \<open>err\<close> being the text of \<open>strerror(errno)\<close> (\<open>Not a directory\<close>,
  \<open>Permission denied\<close>, ...).  On a regular file, \<open>lseek\<close> to a non-negative offset succeeds
  (also past the end) and \<open>read\<close> returns the bytes from the offset on, at most the count
  asked for and none at or past the end; \<open>lseek\<close> to a negative offset fails; on a
  directory \<open>open\<close> and \<open>lseek\<close> succeed and \<open>read\<close> fails.
\<close>

datatype disk_file = Regular string | Directory | Unopenable string

type_synonym disk = "string \<rightharpoonup> disk_file"

fun opens :: "disk_file \<Rightarrow> bool" where
  "opens (Unopenable err) = False"
| "opens (Regular bytes) = True"
| "opens Directory = True"

text \<open>
  \<open>executeCommand\<close> also calls the logger before it returns a piece list or a piece; the
  logged text is never empty and reaches the log file only, so these calls are left out.

  The \<open>give_piece_info\<close> branch.  The second lookup failing erases the entry of the first
  map, as the source does.
\<close>

definition give_piece_info :: "files \<Rightarrow> string \<Rightarrow> string \<Rightarrow> (error + string) \<times> files" where
  "give_piece_info st fileName groupName =
     (case m_fileNameToFilePath st (fileName, groupName) of
        None \<Rightarrow> (Inr '' '', st)
      | Some filePath \<Rightarrow>
          (case m_filePathToAvailablePieces st filePath of
             None \<Rightarrow> (Inr '' '',
                       st\<lparr>m_fileNameToFilePath := (m_fileNameToFilePath st)((fileName, groupName) := None)\<rparr>)
           | Some pieces \<Rightarrow> (Inr (concat (map (\<lambda>it. '' '' @ to_string it) pieces)), st)))"

text \<open>
  The \<open>give_piece\<close> branch after its argument check.  \<open>pieceOffset\<close> is an \<open>int\<close>, the
  product \<open>PIECE_SIZE * pieceNumber\<close> taken in 32 bits.
\<close>

definition give_piece :: "disk \<Rightarrow> files \<Rightarrow> string \<Rightarrow> string \<Rightarrow> int \<Rightarrow> error + string" where
  "give_piece dsk st fileName groupName pieceNumber =
     (case m_fileNameToFilePath st (fileName, groupName) of
        None \<Rightarrow> Inl (Thrown ''File not Exist!!'')
      | Some filePath \<Rightarrow>
          (case m_filePathToAvailablePieces st filePath of
             None \<Rightarrow> Inl (Thrown ''Filepieces map not Exist!!'')
           | Some tempVec \<Rightarrow>
               if pieceNumber \<notin> set tempVec then Inl (Thrown ''Piece not Found!!'')
               else (case dsk filePath of
                       None \<Rightarrow> Inl (Thrown ''Failed to open file at Seeder!!'')
                     | Some f \<Rightarrow>
                         if \<not> opens f then Inl (Thrown ''Failed to open file at Seeder!!'')
                         else
                           let pieceOffset = wrap32 (int PIECE_SIZE * pieceNumber)
                           in if pieceOffset < 0 then Inl (Thrown ''Failed to Seek at seeder!!'')
                              else (case f of
                                      Regular bytes \<Rightarrow>
                                        Inr (take PIECE_SIZE (drop (nat pieceOffset) bytes))
                                    | _ \<Rightarrow> Inl (Thrown ''Failed to Read a piece at seeder!!'')))))"

definition executeCommand :: "disk \<Rightarrow> files \<Rightarrow> string \<Rightarrow> (error + string) \<times> files" where
  "executeCommand dsk st command =
     (if command = [] then (Inl (Thrown ''Invalid command!!''), st)
      else let tokens = tokenize command CHR '' '' in
        if length tokens < 1 then (Inl (Thrown ''Invalid command!!''), st)
        else if tokens ! 0 = ''give_piece_info'' then
          (if length tokens \<noteq> 3
           then (Inl (Thrown ''Invalid arguments to give_piece_info command!!''), st)
           else give_piece_info st (tokens ! 1) (tokens ! 2))
        else if tokens ! 0 = ''give_piece'' then
          (if length tokens \<noteq> 4
           then (Inl (Thrown ''Invalid arguments to give_piece command!!''), st)
           else (case stoi (tokens ! 3) of
                   Inl e \<Rightarrow> (Inl e, st)
                 | Inr pieceNumber \<Rightarrow> (give_piece dsk st (tokens ! 1) (tokens ! 2) pieceNumber, st)))
        else (Inl (Thrown ''Invalid command!!''), st))"

text \<open>
  One round of the loop of \<open>Seeder::handleLeecher\<close> on the data received: the reply that
  is framed and sent back.  Empty data ends the loop without a reply (\<open>None\<close>).  A thrown
  string becomes an \<open>Error: \<close> reply; an exception of another class leaves both \<open>try\<close>
  blocks and the worker, so no reply is sent either.
\<close>

definition handleLeecher_reply :: "disk \<Rightarrow> files \<Rightarrow> string \<Rightarrow> string option \<times> files" where
  "handleLeecher_reply dsk st receivedData =
     (if receivedData = [] then (None, st)
      else case executeCommand dsk st receivedData of
             (Inr payload, st') \<Rightarrow> (Some (''Success: '' @ payload), st')
           | (Inl (Thrown e), st') \<Rightarrow> (Some (''Error: '' @ e), st')
           | (Inl _, st') \<Rightarrow> (None, st'))"

section \<open>Wire framing (\<open>ClientSocket\<close>, \<open>ServerSocket\<close>)\<close>

text \<open>
  \<open>ClientSocket\<close> and \<open>ServerSocket\<close> have the same three members.  A descriptor or a
  port of \<open>-1\<close> and an empty address mean "not created" and "not connected".
\<close>

record socket_fields =
  m_serverIp :: string
  m_serverPort :: int
  m_socketFd :: int

text \<open>
  \<open>sendSocket\<close> prefixes the message with \<open>to_string(message.size())\<close> and one space and
  hands the whole to \<open>send\<close>.  The argument \<open>send_error\<close> is what the system call did:
  \<open>None\<close> when it accepted the bytes, otherwise the text of \<open>strerror(errno)\<close>.  The
  result is the byte string put on the connection.
\<close>

definition ClientSocket_sendSocket :: "socket_fields \<Rightarrow> string option \<Rightarrow> string \<Rightarrow> error + string" where
  "ClientSocket_sendSocket sock send_error message =
     (if m_socketFd sock = - 1
      then Inl (Thrown ''Socket not exist!! Create socket first using createSocket()!!'')
      else if m_serverIp sock = [] \<or> m_serverPort sock = - 1
      then Inl (Thrown ''Socket is not connected with server!! Connect it first using connectSocket(string serverIp, int serverPort)!!'')
      else let messageLength = to_string_nat (length message);
               message = messageLength @ '' '' @ message
           in case send_error of
                Some err \<Rightarrow> Inl (Thrown (''Sending message'' @ [CHR 0x0A] @ ''Error: '' @ err))
              | None \<Rightarrow> Inr message)"

definition ServerSocket_sendSocket :: "socket_fields \<Rightarrow> string option \<Rightarrow> int \<Rightarrow> string \<Rightarrow> error + string" where
  "ServerSocket_sendSocket sock send_error clientSocketFd response =
     (if m_socketFd sock = - 1
      then Inl (Thrown ''Socket not exist!! Create socket first using createSocket()!!'')
      else let messageLength = to_string_nat (length response);
               response = messageLength @ '' '' @ response
           in case send_error of
                Some err \<Rightarrow> Inl (Thrown (''Sending message to client at fd '' @ to_string clientSocketFd
                                          @ ''!!'' @ [CHR 0x0A] @ ''Error: '' @ err))
              | None \<Rightarrow> Inr response)"

text \<open>
  What one call of \<open>recv\<close> returns: some bytes (none at all when the peer has closed the
  connection), or a failure, which is a timeout (\<open>EWOULDBLOCK\<close>, \<open>EAGAIN\<close>) or another
  error with its \<open>strerror\<close> text.  The buffer of the source holds 524288 bytes
  (\<open>RECV_BUFFER_SIZE\<close> below), so one call returns at most that many.
\<close>

datatype recv_result = Received string | WouldBlock | RecvError string

text \<open>
  The body of the receive loop after a call of \<open>recv\<close> that returned at least one byte,
  the same text in both classes.  \<open>Inl\<close> is the end of the loop (a result or an
  exception), \<open>Inr\<close> the variables \<open>totalDataLength\<close> and \<open>receivedData\<close> for the next
  round.  On the first round the first token of what has arrived is read as the length;
  \<open>temp[0]\<close> of an empty vector is undefined behaviour, \<open>stoi\<close> and \<open>substr\<close> throw their
  own exceptions.  The subtraction mixes \<open>int\<close> and \<open>size_t\<close> and is stored in an \<open>int\<close>.
\<close>

definition recv_step :: "int \<Rightarrow> string \<Rightarrow> string \<Rightarrow> (error + string) + (int \<times> string)" where
  "recv_step totalDataLength receivedData buffer =
     (let bytesRead = int (length buffer);
          receivedData = receivedData @ buffer
      in if totalDataLength = - 1 then
           (case tokenize receivedData CHR '' '' of
              [] \<Rightarrow> Inl (Inl UndefinedBehaviour)
            | temp0 # _ \<Rightarrow>
                (case stoi temp0 of
                   Inl e \<Rightarrow> Inl (Inl e)
                 | Inr len \<Rightarrow>
                     let totalDataLength = wrap32 (len - (bytesRead - (int (length temp0) + 1)))
                     in if length receivedData < length temp0 + 1 then Inl (Inl OutOfRange)
                        else let receivedData = drop (length temp0 + 1) receivedData
                             in if totalDataLength = 0 then Inl (Inr receivedData)
                                else Inr (totalDataLength, receivedData)))
         else let totalDataLength = wrap32 (totalDataLength - bytesRead)
              in if totalDataLength = 0 then Inl (Inr receivedData)
                 else Inr (totalDataLength, receivedData))"

text \<open>
  The loop \<open>while(true)\<close> over the successive results of \<open>recv\<close>.  \<open>recv\<close> blocks while
  nothing arrives, so when the list of results is used up the loop does not return:
  that is \<open>None\<close>.  \<open>onClosed\<close> is what the class does when \<open>recv\<close> returns 0 and
  \<open>onFailed\<close> the exception it throws when \<open>recv\<close> fails.
\<close>

fun recvLoop :: "(error + string) \<Rightarrow> (recv_result \<Rightarrow> error) \<Rightarrow> int \<Rightarrow> string \<Rightarrow> recv_result list
    \<Rightarrow> (error + string) option" where
  "recvLoop onClosed onFailed totalDataLength receivedData [] = None"
| "recvLoop onClosed onFailed totalDataLength receivedData (Received buffer # later) =
     (if buffer = [] then Some onClosed
      else case recv_step totalDataLength receivedData buffer of
             Inl res \<Rightarrow> Some res
           | Inr (totalDataLength', receivedData') \<Rightarrow>
               recvLoop onClosed onFailed totalDataLength' receivedData' later)"
| "recvLoop onClosed onFailed totalDataLength receivedData (failure # later) =
     Some (Inl (onFailed failure))"

fun ClientSocket_recv_failed :: "recv_result \<Rightarrow> error" where
  "ClientSocket_recv_failed (RecvError err) =
     Thrown (''Receiving data from server!!'' @ [CHR 0x0A] @ ''Error: '' @ err)"
| "ClientSocket_recv_failed _ =
     Thrown ''Receive timeout occurred!! No data received within 15 seconds!!''"

definition ClientSocket_recvSocket :: "socket_fields \<Rightarrow> recv_result list \<Rightarrow> (error + string) option" where
  "ClientSocket_recvSocket sock recvs =
     (if m_socketFd sock = - 1
      then Some (Inl (Thrown ''Socket not exist!! Create socket first using createSocket()!!''))
      else if m_serverIp sock = [] \<or> m_serverPort sock = - 1
      then Some (Inl (Thrown ''Socket is not connected with server!! Connect it first using connectSocket(string serverIp, int serverPort)!!''))
      else recvLoop (Inl (Thrown ''Error: Server closed the connection!!''))
             ClientSocket_recv_failed (- 1) [] recvs)"

definition ServerSocket_recvSocket :: "socket_fields \<Rightarrow> int \<Rightarrow> recv_result list \<Rightarrow> (error + string) option" where
  "ServerSocket_recvSocket sock clientSocketFd recvs =
     (if m_socketFd sock = - 1
      then Some (Inl (Thrown ''Socket not exist!! Create socket first using createSocket()!!''))
      else recvLoop (Inr [])
             (\<lambda>_. Thrown (''Error receiving message from client-socket at fd '' @ to_string clientSocketFd
                          @ ''!! Connection closed forcefully!!''))
             (- 1) [] recvs)"

text \<open>
  The results of \<open>recv\<close> when the whole of \<open>stream\<close> is waiting in the socket and every call
  returns as much as its buffer of \<open>n\<close> bytes holds.
\<close>

function full_buffers :: "nat \<Rightarrow> string \<Rightarrow> string list" where
  "full_buffers n stream =
     (if n = 0 \<or> stream = [] then [] else take n stream # full_buffers n (drop n stream))"
  by pat_completeness auto
termination
  by (relation "measure (\<lambda>(n, stream). length stream)") auto

declare full_buffers.simps [simp del]

definition RECV_BUFFER_SIZE :: nat where
  "RECV_BUFFER_SIZE = 524288"

section \<open>Piece hashes (\<open>Utils::findSHA\<close>)\<close>

text \<open>
  SHA-256 comes from OpenSSL and is not part of the repository: \<open>sha256_hex\<close>, the
  lower-case hexadecimal digest of a byte string, is a parameter.  An \<open>SHA256_CTX\<close> is
  modelled by the bytes it has absorbed since \<open>SHA256_Init\<close>: \<open>SHA256_Update\<close> appends
  and \<open>SHA256_Final\<close> gives the digest of the whole.

  The loop reads the file from the current offset \<open>pos\<close> in blocks of \<open>PIECE_SIZE\<close>
  bytes until \<open>read\<close> returns nothing: \<open>sha256_1\<close> absorbs every block and \<open>temp\<close> gets
  one context per block.
\<close>

function findSHA_loop :: "string \<Rightarrow> nat \<Rightarrow> string \<Rightarrow> string list \<Rightarrow> string \<times> string list" where
  "findSHA_loop bytes pos sha256_1 temp =
     (let buffer = take PIECE_SIZE (drop pos bytes)
      in if 0 < length buffer
         then findSHA_loop bytes (pos + length buffer) (sha256_1 @ buffer) (temp @ [buffer])
         else (sha256_1, temp))"
  by pat_completeness auto
termination
  by (relation "measure (\<lambda>(bytes, pos, sha256_1, temp). length bytes - pos)")
     (auto simp: PIECE_SIZE_def)

declare findSHA_loop.simps [simp del]

definition findSHA :: "(string \<Rightarrow> string) \<Rightarrow> disk \<Rightarrow> string \<Rightarrow> error + string list" where
  "findSHA sha256_hex dsk filePath =
     (case dsk filePath of
        None \<Rightarrow> Inl (Thrown (''Opening file at findSHA()!!'' @ [CHR 0x0A] @ ''Error: ''
                             @ ''No such file or directory''))
      | Some (Unopenable err) \<Rightarrow>
          Inl (Thrown (''Opening file at findSHA()!!'' @ [CHR 0x0A] @ ''Error: '' @ err))
      | Some Directory \<Rightarrow> Inr [sha256_hex []]
      | Some (Regular bytes) \<Rightarrow>
          (case findSHA_loop bytes 0 [] [] of
             (sha256_1, temp) \<Rightarrow> Inr (sha256_hex sha256_1 # map sha256_hex temp)))"

text \<open>The number of pieces of a file of \<open>fileSize\<close> bytes, \<open>fileSize / PIECE_SIZE\<close> rounded up.\<close>

definition piece_count :: "nat \<Rightarrow> nat" where
  "piece_count fileSize = (fileSize + PIECE_SIZE - 1) div PIECE_SIZE"

section \<open>The leecher's commands (\<open>Leecher\<close>)\<close>

text \<open>
  The members of \<open>Leecher\<close> that the commands touch: the session token and the three sets
  of (group, file name) pairs.
\<close>

record leecher =
  m_authToken :: string
  m_downloadingFiles :: "(string \<times> string) set"
  m_downloadedFiles :: "(string \<times> string) set"
  m_downloadFailFiles :: "(string \<times> string) set"

definition RED :: string where "RED = CHR 0x1B # ''[31m''"
definition GREEN :: string where "GREEN = CHR 0x1B # ''[32m''"
definition YELLOW :: string where "YELLOW = CHR 0x1B # ''[33m''"
definition RESET :: string where "RESET = CHR 0x1B # ''[0m''"

text \<open>\<open>response.substr(7)\<close> throws \<open>std::out_of_range\<close> on a response shorter than 7 bytes.\<close>

definition checkForError :: "string \<Rightarrow> error + unit" where
  "checkForError response =
     (if take 5 response = ''Error''
      then (if length response < 7 then Inl OutOfRange else Inl (Thrown (drop 7 response)))
      else Inr ())"

text \<open>
  \<open>sendTracker\<close> sends one framed message on the tracker connection and waits for the
  framed response.  The tracker and the connection are the environment: \<open>tracker msg\<close> is
  the response received to \<open>msg\<close>, or the exception of the socket layer.  The first
  component of the result is the list of messages handed to \<open>sendSocket\<close>.  The two log
  entries written on the way reach the log file only and are left out.
\<close>

definition sendTracker :: "(string \<Rightarrow> error + string) \<Rightarrow> string \<Rightarrow> string list \<times> (error + string)" where
  "sendTracker tracker messageForTracker =
     ([messageForTracker],
      (case tracker messageForTracker of
         Inl e \<Rightarrow> Inl e
       | Inr response \<Rightarrow>
           (case checkForError response of Inl e \<Rightarrow> Inl e | Inr _ \<Rightarrow> Inr response)))"

text \<open>
  \<open>printResponse\<close>: the text written to \<open>cout\<close>.  \<open>tokens[0]\<close> and \<open>responseTokens[1]\<close> read
  past the end of a vector that is too short.
\<close>

definition printResponse :: "string list \<Rightarrow> string \<Rightarrow> error + string" where
  "printResponse tokens response =
     (if tokens = [] then Inl UndefinedBehaviour
      else
        let response =
              (if tokens ! 0 = ''login''
               then (let responseTokens = tokenize response CHR '' ''
                     in concat (map (\<lambda>i. responseTokens ! i @ '' '')
                                  (filter (\<lambda>i. i \<noteq> 1) [0 ..< length responseTokens])))
               else response)
        in if tokens ! 0 = ''list_groups'' then
             (let responseTokens = tokenize response CHR '' ''
              in if length responseTokens = 1
                 then Inr (YELLOW @ ''There is no group in the system!!'' @ [CHR 0x0A] @ RESET)
                 else if length responseTokens < 2 then Inl UndefinedBehaviour
                 else Inr (''List of groups is as follows : '' @ responseTokens ! 1 @ [CHR 0x0A]))
           else if tokens ! 0 = ''list_requests'' then
             (let responseTokens = tokenize response CHR '' ''
              in if length responseTokens = 1
                 then Inr (YELLOW @ ''There is no pending joinee in the group!!'' @ [CHR 0x0A] @ RESET)
                 else if length responseTokens < 2 then Inl UndefinedBehaviour
                 else Inr (''List of pending requests in the group is as follows : ''
                           @ responseTokens ! 1 @ [CHR 0x0A]))
           else if tokens ! 0 = ''list_files'' then
             (let responseTokens = tokenize response CHR '' ''
              in if length responseTokens = 1
                 then Inr (YELLOW @ ''There are no files in the group!!'' @ [CHR 0x0A] @ RESET)
                 else if length responseTokens < 2 then Inl UndefinedBehaviour
                 else Inr (''List of files in the group is as follows : ''
                           @ responseTokens ! 1 @ [CHR 0x0A]))
           else Inr (GREEN @ response @ [CHR 0x0A] @ RESET))"

text \<open>
  \<open>showDownloads\<close>: the messages sent to the tracker, the text printed or the exception
  that leaves the function, and the members of the leecher afterwards.
\<close>

definition showDownloads ::
    "(string \<Rightarrow> error + string) \<Rightarrow> leecher \<Rightarrow> string list \<Rightarrow> string
      \<Rightarrow> string list \<times> (error + string) \<times> leecher" where
  "showDownloads tracker st tokens inputFromClient =
     (let messageForTracker = inputFromClient @ '' '' @ m_authToken st
      in case sendTracker tracker messageForTracker of
           (sent, Inl e) \<Rightarrow> (sent, Inl e, st)
         | (sent, Inr response) \<Rightarrow> (sent, printResponse tokens response, st))"

text \<open>
  An environment for examples: a tracker that knows no \<open>show_downloads\<close> command and
  answers every message with an error response.
\<close>

definition rejecting_tracker :: "string \<Rightarrow> error + string" where
  "rejecting_tracker messageForTracker = Inr ''Error: Invalid command!!''"

section \<open>The logger (\<open>Logger::log\<close>)\<close>

text \<open>
  \<open>Logger::log\<close> appends one line to the log file.  \<open>time\<close> is the formatted local time;
  \<open>logFile\<close> is the content of the log file, \<open>None\<close> when \<open>open\<close> fails; \<open>write_ok\<close> tells
  whether \<open>write\<close> succeeds.  The result is the log file afterwards.  The first statement
  is \<open>if (content.empty() || content[content.size() - 1] == '\n') content.pop_back();\<close>
  and \<open>pop_back\<close> on an empty string is undefined behaviour.
\<close>

definition Logger_log :: "string \<Rightarrow> string option \<Rightarrow> bool \<Rightarrow> string \<Rightarrow> string \<Rightarrow> error + string option" where
  "Logger_log time logFile write_ok type content =
     (let popped =
            (if content = [] \<or> last content = CHR 0x0A
             then (if content = [] then Inl UndefinedBehaviour else Inr (butlast content))
             else Inr content)
      in case popped of
           Inl e \<Rightarrow> Inl e
         | Inr content \<Rightarrow>
             (case logFile of
                None \<Rightarrow> Inr None
              | Some old \<Rightarrow>
                  let temp = [CHR 0x0A] @ ''['' @ time @ '']['' @ type @ ''] '' @ content
                  in if write_ok then Inr (Some (old @ temp)) else Inr (Some old)))"

section \<open>Sequences of registry operations\<close>

text \<open>
  The operations that reach the two maps of \<open>Files\<close> during a session: the five methods of
  \<open>Files\<close> and the commands the seeder executes.  The three queries return a value and
  leave the maps alone.
\<close>

datatype registry_op =
    AddFilepath string string string
  | AddPieceToFilepath string int
  | GiveFilePath string string
  | GiveAvailablePieces string
  | IsPieceAvailable string int
  | SeederCommand string

fun apply_op :: "disk \<Rightarrow> files \<Rightarrow> registry_op \<Rightarrow> files" where
  "apply_op dsk st (AddFilepath fileName groupName filePath) = addFilepath fileName groupName filePath st"
| "apply_op dsk st (AddPieceToFilepath filePath pieceNumber) = addPieceToFilepath filePath pieceNumber st"
| "apply_op dsk st (GiveFilePath fileName groupName) = st"
| "apply_op dsk st (GiveAvailablePieces filePath) = st"
| "apply_op dsk st (IsPieceAvailable filePath pieceNumber) = st"
| "apply_op dsk st (SeederCommand command) = snd (executeCommand dsk st command)"

definition run_ops :: "disk \<Rightarrow> files \<Rightarrow> registry_op list \<Rightarrow> files" where
  "run_ops dsk st ops = foldl (apply_op dsk) st ops"

text \<open>The piece numbers recorded for a path, as a set.\<close>

definition pieces_of :: "files \<Rightarrow> string \<Rightarrow> int set" where
  "pieces_of st filePath =
     (case m_filePathToAvailablePieces st filePath of None \<Rightarrow> {} | Some pieces \<Rightarrow> set pieces)"

section \<open>Auxiliary facts\<close>

subsection \<open>Decimal conversion\<close>

lemma digit_char_isdigit: "d < 10 \<Longrightarrow> isdigit (digit_char d)"
  by (simp add: isdigit_def digit_char_def)

lemma digit_value_digit_char: "d < 10 \<Longrightarrow> digit_value (digit_char d) = d"
  by (simp add: digit_value_def digit_char_def)

lemma to_string_nat_not_Nil: "to_string_nat n \<noteq> []"
  by (subst to_string_nat.simps) simp

lemma to_string_nat_isdigit: "c \<in> set (to_string_nat n) \<Longrightarrow> isdigit c"
proof (induction n arbitrary: c rule: to_string_nat.induct)
  case (1 n)
  show ?case
  proof (cases "n < 10")
    case True
    with "1.prems" show ?thesis
      by (subst (asm) to_string_nat.simps) (simp add: digit_char_isdigit)
  next
    case False
    with "1.prems" have "c \<in> set (to_string_nat (n div 10)) \<or> c = digit_char (n mod 10)"
      by (subst (asm) to_string_nat.simps) auto
    with False "1.IH" show ?thesis
      by (auto simp: digit_char_isdigit)
  qed
qed

lemma digits_value_snoc: "digits_value (ds @ [c]) = digits_value ds * 10 + digit_value c"
  by (simp add: digits_value_def)

lemma digits_value_to_string_nat: "digits_value (to_string_nat n) = n"
proof (induction n rule: to_string_nat.induct)
  case (1 n)
  show ?case
  proof (cases "n < 10")
    case True
    then show ?thesis
      by (subst to_string_nat.simps) (simp add: digits_value_def digit_value_digit_char)
  next
    case False
    with "1.IH" have "digits_value (to_string_nat (n div 10)) = n div 10" by simp
    with False show ?thesis
      by (subst to_string_nat.simps) (simp add: digits_value_snoc digit_value_digit_char)
  qed
qed

lemma isdigit_not_space: "isdigit c \<Longrightarrow> \<not> isspace c \<and> c \<noteq> CHR '' '' \<and> c \<noteq> CHR ''-'' \<and> c \<noteq> CHR ''+''"
  by (auto simp: isdigit_def isspace_def)

lemma stoi_digits:
  assumes "ds \<noteq> []" and "\<forall>c\<in>set ds. isdigit c" and "digits_value ds < 2147483648"
  shows "stoi ds = Inr (int (digits_value ds))"
proof -
  from assms obtain c cs where ds: "ds = c # cs" by (cases ds) auto
  with assms have c: "isdigit c" by simp
  then have "\<not> isspace c" "c \<noteq> CHR ''-''" "c \<noteq> CHR ''+''"
    using isdigit_not_space by blast+
  then have s1: "dropWhile isspace ds = ds" and hd: "hd ds \<noteq> CHR ''-''" "hd ds \<noteq> CHR ''+''"
    by (simp_all add: ds)
  have tw: "takeWhile isdigit ds = ds"
    using assms(2) by simp
  show ?thesis
    using assms(1,3) by (simp add: stoi_def Let_def s1 hd tw)
qed

lemma stoi_to_string_nat: "n < 2147483648 \<Longrightarrow> stoi (to_string_nat n) = Inr (int n)"
  using stoi_digits [of "to_string_nat n"]
  by (simp add: to_string_nat_not_Nil to_string_nat_isdigit digits_value_to_string_nat)

subsection \<open>Tokens and the receive loop\<close>

lemma wrap32_id: "- 2147483648 \<le> x \<Longrightarrow> x < 2147483648 \<Longrightarrow> wrap32 x = x"
  by (simp add: wrap32_def)

lemma tokenize_loop_ans: "tokenize_loop buffer sep temp ans = ans @ tokenize_loop buffer sep temp []"
proof (induction buffer arbitrary: temp ans)
  case Nil
  show ?case by simp
next
  case (Cons c buffer)
  show ?case
  proof (cases "c = sep")
    case True
    then show ?thesis
      using Cons.IH [of "[]" "ans @ [temp]"] Cons.IH [of "[]" "[temp]"] Cons.IH [of "[]" ans]
      by (cases "temp = []") simp_all
  next
    case False
    then show ?thesis using Cons.IH [of "temp @ [c]" ans] by simp
  qed
qed

lemma tokenize_loop_token: "sep \<notin> set xs \<Longrightarrow>
    tokenize_loop (xs @ rest) sep temp ans = tokenize_loop rest sep (temp @ xs) ans"
  by (induction xs arbitrary: temp) auto

lemma tokenize_sep: "tokenize (sep # rest) sep = tokenize rest sep"
  by (simp add: tokenize_def)

lemma tokenize_single: "xs \<noteq> [] \<Longrightarrow> sep \<notin> set xs \<Longrightarrow> tokenize xs sep = [xs]"
  using tokenize_loop_token [of sep xs "[]" "[]" "[]"] by (simp add: tokenize_def)

lemma tokenize_first: "xs \<noteq> [] \<Longrightarrow> sep \<notin> set xs \<Longrightarrow>
    tokenize (xs @ sep # rest) sep = xs # tokenize rest sep"
proof -
  assume a: "xs \<noteq> []" "sep \<notin> set xs"
  have "tokenize (xs @ sep # rest) sep = tokenize_loop (sep # rest) sep xs []"
    using tokenize_loop_token [OF a(2), of "sep # rest" "[]" "[]"] by (simp add: tokenize_def)
  also have "\<dots> = tokenize_loop rest sep [] [xs]" using a(1) by simp
  also have "\<dots> = [xs] @ tokenize_loop rest sep [] []" by (rule tokenize_loop_ans)
  finally show ?thesis by (simp add: tokenize_def)
qed

lemma to_string_nat_no_space: "CHR '' '' \<notin> set (to_string_nat n)"
  using to_string_nat_isdigit isdigit_not_space by blast

lemma to_string_not_Nil: "to_string i \<noteq> []"
  by (simp add: to_string_def to_string_nat_not_Nil)

lemma to_string_no_space: "CHR '' '' \<notin> set (to_string i)"
  by (simp add: to_string_def to_string_nat_no_space)

lemma tokenize_piece_list:
  "tokenize (concat (map (\<lambda>it. '' '' @ to_string it) pieces)) CHR '' '' = map to_string pieces"
proof (induction pieces)
  case Nil
  show ?case by (simp add: tokenize_def)
next
  case (Cons p pieces)
  show ?case
  proof (cases pieces)
    case Nil
    then show ?thesis
      by (simp add: tokenize_sep tokenize_single to_string_not_Nil to_string_no_space)
  next
    case (Cons q qs)
    have "tokenize (to_string p @ CHR '' '' # (to_string q @ concat (map (\<lambda>it. '' '' @ to_string it) qs))) CHR '' ''
          = to_string p # tokenize (to_string q @ concat (map (\<lambda>it. '' '' @ to_string it) qs)) CHR '' ''"
      by (rule tokenize_first) (simp_all add: to_string_not_Nil to_string_no_space)
    with Cons Cons.IH show ?thesis by (simp add: tokenize_sep)
  qed
qed

lemma recvLoop_rest:
  assumes "\<forall>c\<in>set cs. c \<noteq> []"
    and "tot = int (length (concat cs))" and "0 < tot" and "tot < 2147483648"
  shows "recvLoop onClosed onFailed tot data (map Received cs) = Some (Inr (data @ concat cs))"
  using assms
proof (induction cs arbitrary: tot data)
  case Nil
  then show ?case by simp
next
  case (Cons c cs)
  let ?t = "tot - int (length c)"
  from Cons.prems have c: "c \<noteq> []" and t: "?t = int (length (concat cs))" by simp_all
  with Cons.prems have w: "wrap32 ?t = ?t" by (intro wrap32_id) simp_all
  have step: "recv_step tot data c =
      (if ?t = 0 then Inl (Inr (data @ c)) else Inr (?t, data @ c))"
    using Cons.prems(3) by (simp add: recv_step_def Let_def w)
  show ?case
  proof (cases "?t = 0")
    case True
    with t have "concat cs = []" by simp
    with True c step show ?thesis by simp
  next
    case False
    with t have pos: "0 < ?t" by simp
    have "recvLoop onClosed onFailed ?t (data @ c) (map Received cs) = Some (Inr ((data @ c) @ concat cs))"
      using Cons.prems t pos by (intro Cons.IH) simp_all
    with False c step show ?thesis by simp
  qed
qed

lemma recv_step_first:
  assumes len: "length m < 2147483648" and k: "k \<le> length m"
  shows "recv_step (- 1) [] (to_string_nat (length m) @ CHR '' '' # take k m) =
      (if k = length m then Inl (Inr (take k m))
       else Inr (int (length m) - int k, take k m))"
proof -
  let ?ds = "to_string_nat (length m)"
  have tok: "tokenize (?ds @ CHR '' '' # take k m) CHR '' '' = ?ds # tokenize (take k m) CHR '' ''"
    by (rule tokenize_first) (simp_all add: to_string_nat_not_Nil to_string_nat_no_space)
  have st: "stoi ?ds = Inr (int (length m))"
    using len by (rule stoi_to_string_nat)
  have w: "wrap32 (int (length m) - int k) = int (length m) - int k"
    using len k by (intro wrap32_id) simp_all
  have arith: "int (length m) - (int (length (?ds @ CHR '' '' # take k m)) - (int (length ?ds) + 1))
      = int (length m) - int k"
    using k by simp
  show ?thesis
    unfolding recv_step_def Let_def
    apply (simp only: append_Nil tok st list.case sum.case arith w)
    using k apply simp
    done
qed

lemma split_at_header:
  "c0 @ r = ds @ s # m \<Longrightarrow> length ds < length c0 \<Longrightarrow>
     c0 = ds @ s # take (length c0 - length ds - 1) m \<and> r = drop (length c0 - length ds - 1) m"
proof (induction ds arbitrary: c0)
  case Nil
  then obtain c0' where c0: "c0 = s # c0'" and "c0' @ r = m"
    by (cases c0) auto
  then show ?case by auto
next
  case (Cons d ds)
  then obtain c0' where c0: "c0 = d # c0'" and "c0' @ r = ds @ s # m" and "length ds < length c0'"
    by (cases c0) auto
  with Cons.IH [of c0'] show ?case by simp
qed

lemma recvLoop_frame:
  assumes len: "length m < 2147483648"
    and frame: "concat chunks = to_string_nat (length m) @ '' '' @ m"
    and nonempty: "\<forall>c\<in>set chunks. c \<noteq> []"
    and first: "length (to_string_nat (length m)) < length (hd chunks)"
  shows "recvLoop onClosed onFailed (- 1) [] (map Received chunks) = Some (Inr m)"
proof -
  let ?ds = "to_string_nat (length m)"
  from frame obtain c0 cs where chunks: "chunks = c0 # cs"
    by (cases chunks) auto
  define k where "k = length c0 - length ?ds - 1"
  from chunks frame have app: "c0 @ concat cs = ?ds @ CHR '' '' # m" by simp
  from first chunks have long: "length ?ds < length c0" by simp
  from split_at_header [OF app long]
  have c0: "c0 = ?ds @ CHR '' '' # take k m" and rest: "concat cs = drop k m"
    by (simp_all add: k_def)
  have "length c0 \<le> length (?ds @ CHR '' '' # m)"
    using arg_cong [OF app, of length] by simp
  then have k: "k \<le> length m" by (simp add: k_def)
  have c0_ne: "c0 \<noteq> []" using long by auto
  have step: "recv_step (- 1) [] c0 =
      (if k = length m then Inl (Inr (take k m)) else Inr (int (length m) - int k, take k m))"
    by (subst c0) (rule recv_step_first [OF len k])
  show ?thesis
  proof (cases "k = length m")
    case True
    then show ?thesis
      using c0_ne by (simp add: chunks step)
  next
    case False
    let ?t = "int (length m) - int k"
    have "recvLoop onClosed onFailed ?t (take k m) (map Received cs)
        = Some (Inr (take k m @ concat cs))"
    proof (rule recvLoop_rest)
      show "\<forall>c\<in>set cs. c \<noteq> []" using nonempty chunks by simp
      show "?t = int (length (concat cs))" using rest k by simp
      show "0 < ?t" using False k by simp
      show "?t < 2147483648" using len by simp
    qed
    then show ?thesis
      using c0_ne False by (simp add: chunks step rest)
  qed
qed

text \<open>
  The usual delivery: the frame is waiting in the socket and each \<open>recv\<close> fills its buffer.
  The length token of a payload shorter than \<open>2^31\<close> bytes has at most ten digits, so it
  fits the first buffer with the space after it, and both receivers return the payload.
\<close>

lemma to_string_nat_length: "n < 10 ^ k \<Longrightarrow> 0 < k \<Longrightarrow> length (to_string_nat n) \<le> k"
proof (induction k arbitrary: n)
  case 0
  then show ?case by simp
next
  case (Suc k)
  show ?case
  proof (cases "n < 10")
    case True
    then show ?thesis by (subst to_string_nat.simps) simp
  next
    case False
    then have k: "0 < k" using Suc.prems(1) by (cases k) auto
    from Suc.prems(1) have "n div 10 < 10 ^ k"
      by (simp add: less_mult_imp_div_less mult.commute)
    with Suc.IH k have "length (to_string_nat (n div 10)) \<le> k" by blast
    with False show ?thesis by (subst to_string_nat.simps) simp
  qed
qed

lemma to_string_nat_short: "n < 2147483648 \<Longrightarrow> length (to_string_nat n) \<le> 10"
  by (rule to_string_nat_length) simp_all

lemma concat_full_buffers: "0 < n \<Longrightarrow> concat (full_buffers n stream) = stream"
proof (induction n stream rule: full_buffers.induct)
  case (1 n stream)
  show ?case
  proof (cases "stream = []")
    case True
    then show ?thesis by (subst full_buffers.simps) simp
  next
    case False
    with "1.prems" "1.IH" have "concat (full_buffers n (drop n stream)) = drop n stream" by simp
    with False "1.prems" show ?thesis by (subst full_buffers.simps) simp
  qed
qed

lemma full_buffers_nonempty: "c \<in> set (full_buffers n stream) \<Longrightarrow> c \<noteq> []"
proof (induction n stream rule: full_buffers.induct)
  case (1 n stream)
  show ?case
  proof (cases "n = 0 \<or> stream = []")
    case True
    with "1.prems" show ?thesis by (subst (asm) full_buffers.simps) simp
  next
    case False
    with "1.prems" have "c = take n stream \<or> c \<in> set (full_buffers n (drop n stream))"
      by (subst (asm) full_buffers.simps) auto
    with False "1.IH" show ?thesis by auto
  qed
qed

lemma hd_full_buffers: "0 < n \<Longrightarrow> stream \<noteq> [] \<Longrightarrow> hd (full_buffers n stream) = take n stream"
  by (subst full_buffers.simps) simp

lemma recvLoop_full_buffers:
  assumes len: "length m < 2147483648"
  shows "recvLoop onClosed onFailed (- 1) []
           (map Received (full_buffers RECV_BUFFER_SIZE (to_string_nat (length m) @ '' '' @ m)))
         = Some (Inr m)"
proof (rule recvLoop_frame [OF len])
  let ?frame = "to_string_nat (length m) @ '' '' @ m"
  show "concat (full_buffers RECV_BUFFER_SIZE ?frame) = ?frame"
    by (rule concat_full_buffers) (simp add: RECV_BUFFER_SIZE_def)
  show "\<forall>c\<in>set (full_buffers RECV_BUFFER_SIZE ?frame). c \<noteq> []"
    using full_buffers_nonempty by blast
  have "hd (full_buffers RECV_BUFFER_SIZE ?frame) = take RECV_BUFFER_SIZE ?frame"
    by (rule hd_full_buffers) (simp_all add: RECV_BUFFER_SIZE_def)
  then show "length (to_string_nat (length m)) < length (hd (full_buffers RECV_BUFFER_SIZE ?frame))"
    using to_string_nat_short [OF len] by (simp add: RECV_BUFFER_SIZE_def)
qed

lemma recvSocket_full_buffers:
  assumes "m_socketFd client \<noteq> - 1" "m_serverIp client \<noteq> []" "m_serverPort client \<noteq> - 1"
    and "m_socketFd server \<noteq> - 1"
    and "length m < 2147483648"
  shows "ClientSocket_recvSocket client
           (map Received (full_buffers RECV_BUFFER_SIZE (to_string_nat (length m) @ '' '' @ m)))
         = Some (Inr m)"
    and "ServerSocket_recvSocket server fd
           (map Received (full_buffers RECV_BUFFER_SIZE (to_string_nat (length m) @ '' '' @ m)))
         = Some (Inr m)"
  using assms recvLoop_full_buffers [OF assms(5)]
  by (simp_all add: ClientSocket_recvSocket_def ServerSocket_recvSocket_def)


text \<open>
  Both \<open>sendSocket\<close> methods put on the connection the decimal length of the payload, one
  space and the payload.  When these bytes arrive in non-empty pieces, one per call of
  \<open>recv\<close>, and the first piece holds the whole length token and the space after it, both
  \<open>recvSocket\<close> methods return the payload.
\<close>

lemma recvSocket_returns_payload:
  assumes client: "m_socketFd client \<noteq> - 1" "m_serverIp client \<noteq> []" "m_serverPort client \<noteq> - 1"
    and server: "m_socketFd server \<noteq> - 1"
    and len: "length m < 2147483648"
    and frame: "concat chunks = to_string_nat (length m) @ '' '' @ m"
    and nonempty: "\<forall>c\<in>set chunks. c \<noteq> []"
    and first: "length (to_string_nat (length m)) < length (hd chunks)"
  shows "ClientSocket_sendSocket client None m = Inr (to_string_nat (length m) @ '' '' @ m)
       \<and> ServerSocket_sendSocket server None fd m = Inr (to_string_nat (length m) @ '' '' @ m)
       \<and> ClientSocket_recvSocket client (map Received chunks) = Some (Inr m)
       \<and> ServerSocket_recvSocket server fd (map Received chunks) = Some (Inr m)"
proof -
  have "ClientSocket_sendSocket client None m = Inr (to_string_nat (length m) @ '' '' @ m)"
    using client by (simp add: ClientSocket_sendSocket_def)
  moreover have "ServerSocket_sendSocket server None fd m = Inr (to_string_nat (length m) @ '' '' @ m)"
    using server by (simp add: ServerSocket_sendSocket_def)
  moreover have "ClientSocket_recvSocket client (map Received chunks) = Some (Inr m)"
    using client recvLoop_frame [OF len frame nonempty first]
    by (simp add: ClientSocket_recvSocket_def)
  moreover have "ServerSocket_recvSocket server fd (map Received chunks) = Some (Inr m)"
    using server recvLoop_frame [OF len frame nonempty first]
    by (simp add: ServerSocket_recvSocket_def)
  ultimately show ?thesis by blast
qed

text \<open>Lengths used in the examples.\<close>

lemma to_string_nat_10: "to_string_nat (length ''abcdefghij'') = ''10''"
  by code_simp

subsection \<open>The seeder's commands\<close>

lemma stoi_to_string:
  assumes "- 2147483648 \<le> i" and "i \<le> 2147483647"
  shows "stoi (to_string i) = Inr i"
proof (cases "i < 0")
  case False
  with assms stoi_to_string_nat [of "nat i"] show ?thesis
    by (simp add: to_string_def)
next
  case True
  let ?ds = "to_string_nat (nat (- i))"
  have tw: "takeWhile isdigit ?ds = ?ds"
    by (simp add: to_string_nat_isdigit)
  have sp: "\<not> isspace CHR ''-''"
    by (simp add: isspace_def)
  show ?thesis
    using True assms
    by (simp add: to_string_def stoi_def Let_def sp tw to_string_nat_not_Nil digits_value_to_string_nat)
qed


lemma command_not_Nil: "tokenize command sep = t # ts \<Longrightarrow> command \<noteq> []"
  by (auto simp: tokenize_def)

lemma executeCommand_give_piece:
  assumes "tokenize command CHR '' '' = [''give_piece'', F, G, Ntok]" and "stoi Ntok = Inr N"
  shows "executeCommand dsk st command = (give_piece dsk st F G N, st)"
  using assms command_not_Nil [OF assms(1)] by (simp add: executeCommand_def)

lemma executeCommand_give_piece_info:
  assumes "tokenize command CHR '' '' = [''give_piece_info'', F, G]"
  shows "executeCommand dsk st command = give_piece_info st F G"
  using assms command_not_Nil [OF assms(1)] by (simp add: executeCommand_def)

lemma tokenize_piece_list_Cons:
  "tokenize (concat (map (\<lambda>it. CHR '' '' # to_string it) pieces)) CHR '' '' = map to_string pieces"
  using tokenize_piece_list [of pieces] by simp

lemma executeCommand_keeps_pieces:
  "m_filePathToAvailablePieces (snd (executeCommand dsk st command)) = m_filePathToAvailablePieces st"
  by (simp add: executeCommand_def give_piece_info_def Let_def split: option.splits sum.splits)

lemma apply_op_keeps_piece:
  "n \<in> pieces_of st filePath \<Longrightarrow> n \<in> pieces_of (apply_op dsk st op) filePath"
  by (cases op)
     (auto simp: pieces_of_def addFilepath_def addPieceToFilepath_def executeCommand_keeps_pieces
           split: option.splits)


text \<open>
  A request \<open>give_piece F G N\<close> whose last token \<open>stoi\<close> converts: each failed lookup throws
  its string and is answered with an \<open>Error: \<close> reply, and piece bytes are returned only
  when all three lookups succeed.
\<close>

lemma give_piece_errors_when_parsed:
  assumes tokens: "tokenize command CHR '' '' = [''give_piece'', F, G, Ntok]"
    and N: "stoi Ntok = Inr N"
  shows "(m_fileNameToFilePath st (F, G) = None \<longrightarrow>
            fst (executeCommand dsk st command) = Inl (Thrown ''File not Exist!!'')
            \<and> fst (handleLeecher_reply dsk st command) = Some ''Error: File not Exist!!'')
       \<and> (\<forall>filePath. m_fileNameToFilePath st (F, G) = Some filePath
              \<and> m_filePathToAvailablePieces st filePath = None \<longrightarrow>
            fst (executeCommand dsk st command) = Inl (Thrown ''Filepieces map not Exist!!'')
            \<and> fst (handleLeecher_reply dsk st command) = Some ''Error: Filepieces map not Exist!!'')
       \<and> (\<forall>filePath pieces. m_fileNameToFilePath st (F, G) = Some filePath
              \<and> m_filePathToAvailablePieces st filePath = Some pieces \<and> N \<notin> set pieces \<longrightarrow>
            fst (executeCommand dsk st command) = Inl (Thrown ''Piece not Found!!'')
            \<and> fst (handleLeecher_reply dsk st command) = Some ''Error: Piece not Found!!'')
       \<and> (\<forall>pieceData. fst (executeCommand dsk st command) = Inr pieceData \<longrightarrow>
            (\<exists>filePath pieces. m_fileNameToFilePath st (F, G) = Some filePath
               \<and> m_filePathToAvailablePieces st filePath = Some pieces \<and> N \<in> set pieces))"
proof -
  have ne: "command \<noteq> []" using tokens by (rule command_not_Nil)
  have ex: "executeCommand dsk st command = (give_piece dsk st F G N, st)"
    using tokens N by (rule executeCommand_give_piece)
  show ?thesis
    by (auto simp: ex ne handleLeecher_reply_def give_piece_def
          split: option.splits if_splits disk_file.splits)
qed


lemma tokenize_give_piece_info: "tokenize ''give_piece_info f g'' CHR '' '' = [''give_piece_info'', ''f'', ''g'']"
  by (simp add: tokenize_def)


lemma to_string_0_2_5: "to_string 0 = ''0'' \<and> to_string 2 = ''2'' \<and> to_string 5 = ''5''"
  by code_simp

lemma to_string_3: "to_string 3 = ''3''"
  by code_simp

lemma tokenize_give_piece_big:
  "tokenize ''give_piece f g 2147483648'' CHR '' '' = [''give_piece'', ''f'', ''g'', ''2147483648'']"
  by (simp add: tokenize_def)

lemma tokenize_give_piece_abc:
  "tokenize ''give_piece f g abc'' CHR '' '' = [''give_piece'', ''f'', ''g'', ''abc'']"
  by (simp add: tokenize_def)

lemma stoi_big: "stoi ''2147483648'' = Inl OutOfRange"
  by (simp add: stoi_def isspace_def isdigit_def digits_value_def digit_value_def)

lemma stoi_abc: "stoi ''abc'' = Inl InvalidArgument"
  by (simp add: stoi_def isspace_def isdigit_def)

subsection \<open>Blocks of a file\<close>

lemma block_count_step: "1024 \<le> n \<Longrightarrow> (n + 1023) div 1024 = Suc ((n - 1024 + 1023) div 1024)"
  for n :: nat
proof -
  assume "1024 \<le> n"
  then have "n + 1023 = (n - 1024 + 1023) + 1024" by simp
  then have "(n + 1023) div 1024 = ((n - 1024 + 1023) + 1024) div 1024" by (rule arg_cong)
  also have "\<dots> = Suc ((n - 1024 + 1023) div 1024)" by simp
  finally show ?thesis .
qed

lemma block_count_last: "0 < n \<Longrightarrow> n < 1024 \<Longrightarrow> (n + 1023) div 1024 = 1"
  for n :: nat
  by (rule div_nat_eqI) simp_all

lemma map_upt_shift: "map f [0..<Suc k] = f 0 # map (\<lambda>i. f (Suc i)) [0..<k]"
  by (simp add: upt_conv_Cons map_Suc_upt [symmetric] del: upt_Suc)

lemma take_drop_block: "take n xs @ drop (length (take n xs)) xs = xs"
  by (cases "n \<le> length xs") (simp_all add: min_def)

lemma findSHA_loop_unfold:
  "findSHA_loop bytes pos sha256_1 temp =
     (if pos < length bytes
      then findSHA_loop bytes (pos + min 1024 (length bytes - pos))
             (sha256_1 @ take 1024 (drop pos bytes)) (temp @ [take 1024 (drop pos bytes)])
      else (sha256_1, temp))"
  by (subst findSHA_loop.simps) (auto simp: Let_def PIECE_SIZE_def min_def)

lemma findSHA_loop_result:
  "pos \<le> length bytes \<Longrightarrow>
   findSHA_loop bytes pos sha256_1 temp =
     (sha256_1 @ drop pos bytes,
      temp @ map (\<lambda>i. take 1024 (drop (pos + 1024 * i) bytes))
                 [0 ..< (length bytes - pos + 1023) div 1024])"
proof (induction bytes pos sha256_1 temp rule: findSHA_loop.induct)
  case (1 bytes pos sha256_1 temp)
  define buffer where "buffer = take 1024 (drop pos bytes)"
  define rem where "rem = length bytes - pos"
  show ?case
  proof (cases "pos < length bytes")
    case False
    with "1.prems" have "pos = length bytes" by simp
    then show ?thesis
      by (subst findSHA_loop_unfold) simp
  next
    case True
    have len: "length buffer = min 1024 rem"
      by (simp add: buffer_def rem_def min.commute)
    have pos': "pos + min 1024 rem \<le> length bytes"
      using True by (simp add: rem_def)
    have IH: "findSHA_loop bytes (pos + min 1024 rem) (sha256_1 @ buffer) (temp @ [buffer]) =
        ((sha256_1 @ buffer) @ drop (pos + min 1024 rem) bytes,
         (temp @ [buffer]) @ map (\<lambda>i. take 1024 (drop (pos + min 1024 rem + 1024 * i) bytes))
            [0 ..< (length bytes - (pos + min 1024 rem) + 1023) div 1024])"
      using "1.IH" [of buffer] True pos' len
      by (simp add: buffer_def PIECE_SIZE_def rem_def)
    have ctx: "buffer @ drop (pos + min 1024 rem) bytes = drop pos bytes"
    proof -
      have "drop (pos + min 1024 rem) bytes = drop (length buffer) (drop pos bytes)"
        by (simp add: len add.commute)
      then show ?thesis
        unfolding buffer_def by (simp only: take_drop_block)
    qed
    have blocks: "buffer # map (\<lambda>i. take 1024 (drop (pos + min 1024 rem + 1024 * i) bytes))
            [0 ..< (length bytes - (pos + min 1024 rem) + 1023) div 1024]
        = map (\<lambda>i. take 1024 (drop (pos + 1024 * i) bytes)) [0 ..< (rem + 1023) div 1024]"
    proof (cases "1024 \<le> rem")
      case True
      then have m: "min 1024 rem = 1024" by simp
      have cnt: "(rem + 1023) div 1024 = Suc ((rem - 1024 + 1023) div 1024)"
        using True by (rule block_count_step)
      have r: "length bytes - (pos + 1024) = rem - 1024" by (simp add: rem_def)
      show ?thesis
        unfolding m cnt r map_upt_shift by (simp add: buffer_def add.assoc)
    next
      case False
      then have m: "min 1024 rem = rem" by simp
      have "0 < rem" using \<open>pos < length bytes\<close> by (simp add: rem_def)
      then have cnt: "(rem + 1023) div 1024 = 1" using False by (intro block_count_last) simp_all
      have r: "length bytes - (pos + rem) = 0" by (simp add: rem_def)
      show ?thesis
        unfolding m cnt r by (simp add: buffer_def)
    qed
    have "findSHA_loop bytes pos sha256_1 temp =
        findSHA_loop bytes (pos + min 1024 rem) (sha256_1 @ buffer) (temp @ [buffer])"
      using True by (subst findSHA_loop_unfold) (simp add: buffer_def rem_def)
    also note IH
    finally show ?thesis
      using ctx blocks by (simp add: rem_def)
  qed
qed

lemma piece_count_bounds:
  assumes "0 < s"
  shows "0 < piece_count s" and "1024 * (piece_count s - 1) < s" and "s \<le> 1024 * piece_count s"
proof -
  define P where "P = (s + 1023) div 1024"
  define r where "r = (s + 1023) mod 1024"
  have pc: "piece_count s = P" by (simp add: piece_count_def PIECE_SIZE_def P_def)
  have "1024 * P + r = s + 1023" unfolding P_def r_def by (rule mult_div_mod_eq)
  moreover have "r < 1024" unfolding r_def by simp
  ultimately have "0 < P \<and> 1024 * (P - 1) < s \<and> s \<le> 1024 * P"
    using assms by arith
  then show "0 < piece_count s" and "1024 * (piece_count s - 1) < s" and "s \<le> 1024 * piece_count s"
    by (simp_all add: pc)
qed

lemma piece_count_multiple:
  assumes "0 < s" and "s mod 1024 = 0"
  shows "s - 1024 * (piece_count s - 1) = 1024"
proof -
  from assms(2) obtain q where q: "s = 1024 * q" by (auto simp: mod_eq_0_iff_dvd)
  have "(1024 * q + 1023) div 1024 = q" by (rule div_nat_eqI) simp_all
  then have "piece_count s = q" by (simp add: piece_count_def PIECE_SIZE_def q)
  moreover have "0 < q" using assms(1) q by simp
  ultimately show ?thesis using q by (cases q) simp_all
qed

lemma piece_count_eq: "piece_count s = (s + 1023) div 1024"
  by (simp add: piece_count_def PIECE_SIZE_def)

lemma findSHA_regular:
  "dsk filePath = Some (Regular bytes) \<Longrightarrow>
   findSHA sha256_hex dsk filePath =
     Inr (sha256_hex bytes # map (\<lambda>i. sha256_hex (take 1024 (drop (1024 * i) bytes)))
                                [0 ..< piece_count (length bytes)])"
  using findSHA_loop_result [of 0 bytes "[]" "[]"]
  unfolding piece_count_eq by (simp add: findSHA_def comp_def)

subsection \<open>The logger on non-empty content\<close>

lemma Logger_log_nonempty:
  "content \<noteq> [] \<Longrightarrow>
   Logger_log time (Some old) True type content =
     Inr (Some (old @ [CHR 0x0A] @ ''['' @ time @ '']['' @ type @ ''] ''
                @ (if last content = CHR 0x0A then butlast content else content)))"
  by (simp add: Logger_log_def)

section \<open>Claims\<close>

subsection \<open>C1: the bytes returned by \<open>give_piece\<close>\<close>



subsection \<open>C2: length-prefix framing\<close>

text \<open>
  C2.  The claim is that the receiver, applied to the bytes the sender transmits for a
  payload, returns exactly the payload.  The sender does transmit the decimal length, one
  space and the payload: for the ten bytes \<open>abcdefghij\<close> the frame is \<open>10 abcdefghij\<close>.  The
  receive loop appends what each \<open>recv\<close> returns, but it reads the length out of the first
  piece alone.  When the frame arrives as \<open>1\<close> followed by \<open>0 abcdefghij\<close>, both \<open>recvSocket\<close>
  methods take \<open>1\<close> for the length and \<open>substr(2)\<close> of the one-byte string throws
  \<open>std::out_of_range\<close>: no message is returned, and the exception is not the string the
  methods are documented to throw.
\<close>

theorem recvSocket_split_length_token:
  "ClientSocket_sendSocket \<lparr>m_serverIp = ''127.0.0.1'', m_serverPort = 5000, m_socketFd = 3\<rparr> None
        ''abcdefghij'' = Inr ''10 abcdefghij''
   \<and> ServerSocket_sendSocket \<lparr>m_serverIp = ''127.0.0.1'', m_serverPort = 5001, m_socketFd = 4\<rparr> None 7
        ''abcdefghij'' = Inr ''10 abcdefghij''
   \<and> concat [''1'', ''0 abcdefghij''] = ''10 abcdefghij''
   \<and> ClientSocket_recvSocket \<lparr>m_serverIp = ''127.0.0.1'', m_serverPort = 5000, m_socketFd = 3\<rparr>
        [Received ''1'', Received ''0 abcdefghij''] = Some (Inl OutOfRange)
   \<and> ServerSocket_recvSocket \<lparr>m_serverIp = ''127.0.0.1'', m_serverPort = 5001, m_socketFd = 4\<rparr> 7
        [Received ''1'', Received ''0 abcdefghij''] = Some (Inl OutOfRange)"
proof -
  have st: "stoi ''1'' = Inr 1"
    by (simp add: stoi_def isspace_def isdigit_def digits_value_def digit_value_def)
  have tk: "tokenize ''1'' CHR '' '' = [''1'']"
    by (simp add: tokenize_def)
  have step: "recv_step (- 1) [] ''1'' = Inl (Inl OutOfRange)"
    by (simp add: recv_step_def tk st Let_def)
  show ?thesis
    by (simp add: ClientSocket_sendSocket_def ServerSocket_sendSocket_def
          ClientSocket_recvSocket_def ServerSocket_recvSocket_def step to_string_nat_10
          del: list.size)
qed

subsection \<open>C3: the hash list of \<open>findSHA\<close>\<close>

text \<open>
  C3.  For a non-empty regular file of \<open>s\<close> bytes, \<open>findSHA\<close> returns \<open>1 + P\<close> hashes, where
  \<open>P\<close> is \<open>s / 1024\<close> rounded up: the hash of the whole file, then for \<open>i = 0, ..., P - 1\<close>
  the hash of the block of the file that starts at byte \<open>1024 * i\<close>.  Every block but the
  last has 1024 bytes and the last has \<open>s - 1024 * (P - 1)\<close> bytes, between 1 and 1024.
  A file of one byte has one block, and when \<open>s\<close> is a multiple of 1024 the last block
  has 1024 bytes.
\<close>

theorem findSHA_hash_list:
  assumes regular: "dsk filePath = Some (Regular bytes)" and nonempty: "bytes \<noteq> []"
  shows "findSHA sha256_hex dsk filePath =
           Inr (sha256_hex bytes #
                map (\<lambda>i. sha256_hex (take 1024 (drop (1024 * i) bytes)))
                    [0 ..< piece_count (length bytes)])
      \<and> (\<forall>hashes. findSHA sha256_hex dsk filePath = Inr hashes \<longrightarrow>
            length hashes = 1 + piece_count (length bytes))
      \<and> (\<forall>i < piece_count (length bytes) - 1. length (take 1024 (drop (1024 * i) bytes)) = 1024)
      \<and> length (take 1024 (drop (1024 * (piece_count (length bytes) - 1)) bytes))
           = length bytes - 1024 * (piece_count (length bytes) - 1)
      \<and> 1 \<le> length bytes - 1024 * (piece_count (length bytes) - 1)
      \<and> length bytes - 1024 * (piece_count (length bytes) - 1) \<le> 1024
      \<and> (length bytes = 1 \<longrightarrow> piece_count (length bytes) = 1)
      \<and> (length bytes mod 1024 = 0 \<longrightarrow>
            length bytes - 1024 * (piece_count (length bytes) - 1) = 1024)"
proof (intro conjI)
  let ?s = "length bytes"
  let ?P = "piece_count ?s"
  have pos: "0 < ?s" using nonempty by simp
  note P = piece_count_bounds [OF pos]
  from P(1) obtain Q where Q: "?P = Suc Q" by (cases ?P) auto
  show "findSHA sha256_hex dsk filePath =
      Inr (sha256_hex bytes # map (\<lambda>i. sha256_hex (take 1024 (drop (1024 * i) bytes))) [0 ..< ?P])"
    using regular by (rule findSHA_regular)
  then show "\<forall>hashes. findSHA sha256_hex dsk filePath = Inr hashes \<longrightarrow>
      length hashes = 1 + ?P"
    by auto
  show "\<forall>i < ?P - 1. length (take 1024 (drop (1024 * i) bytes)) = 1024"
  proof (intro allI impI)
    fix i assume "i < ?P - 1"
    then have "1024 * (i + 1) \<le> 1024 * (?P - 1)" by simp
    with P(2) have "1024 * i + 1024 < ?s" by simp
    then show "length (take 1024 (drop (1024 * i) bytes)) = 1024" by simp
  qed
  show "length (take 1024 (drop (1024 * (?P - 1)) bytes)) = ?s - 1024 * (?P - 1)"
    using P(3) by (simp add: Q)
  show "1 \<le> ?s - 1024 * (?P - 1)" using P(2) by simp
  show "?s - 1024 * (?P - 1) \<le> 1024" using P(3) by (simp add: Q)
  show "?s = 1 \<longrightarrow> ?P = 1"
  proof
    assume one: "?s = 1"
    from P(2) have "1024 * Q < ?s" by (simp add: Q)
    then have "Q = 0" unfolding one by simp
    with Q show "?P = 1" by simp
  qed
  show "?s mod 1024 = 0 \<longrightarrow> ?s - 1024 * (?P - 1) = 1024"
    using piece_count_multiple [OF pos] by blast
qed

text \<open>
  A file of one byte and a file of 2048 bytes, for any digest function: one block of one
  byte, and two blocks of 1024 bytes.
\<close>

theorem findSHA_hash_list_witness:
  "\<forall>sha256_hex.
      findSHA sha256_hex [''/data/f'' \<mapsto> Regular ''a''] ''/data/f''
        = Inr [sha256_hex ''a'', sha256_hex ''a'']
      \<and> findSHA sha256_hex [''/data/g'' \<mapsto> Regular (replicate 2048 CHR ''a'')] ''/data/g''
        = Inr [sha256_hex (replicate 2048 CHR ''a''), sha256_hex (replicate 1024 CHR ''a''),
               sha256_hex (replicate 1024 CHR ''a'')]"
proof (intro allI conjI)
  fix sha256_hex :: "string \<Rightarrow> string"
  have pc: "piece_count (length ''a'') = 1"
    by (simp add: piece_count_def PIECE_SIZE_def)
  have "findSHA sha256_hex [''/data/f'' \<mapsto> Regular ''a''] ''/data/f''
      = Inr (sha256_hex ''a'' # map (\<lambda>i. sha256_hex (take 1024 (drop (1024 * i) ''a'')))
            [0 ..< piece_count (length ''a'')])"
    using findSHA_hash_list [of "[''/data/f'' \<mapsto> Regular ''a'']" "''/data/f''" "''a''" sha256_hex]
    by simp
  then show "findSHA sha256_hex [''/data/f'' \<mapsto> Regular ''a''] ''/data/f''
      = Inr [sha256_hex ''a'', sha256_hex ''a'']"
    unfolding pc by simp
  let ?big = "replicate 2048 CHR ''a''"
  have pc2: "piece_count (length ?big) = 2"
    by (simp add: piece_count_def PIECE_SIZE_def)
  have blocks: "map (\<lambda>i. sha256_hex (take 1024 (drop (1024 * i) ?big))) [0 ..< 2]
      = [sha256_hex (replicate 1024 CHR ''a''), sha256_hex (replicate 1024 CHR ''a'')]"
    by (simp add: numeral_2_eq_2)
  have "findSHA sha256_hex [''/data/g'' \<mapsto> Regular ?big] ''/data/g''
      = Inr (sha256_hex ?big # map (\<lambda>i. sha256_hex (take 1024 (drop (1024 * i) ?big)))
            [0 ..< piece_count (length ?big)])"
    using findSHA_hash_list [of "[''/data/g'' \<mapsto> Regular ?big]" "''/data/g''" ?big sha256_hex]
    by simp
  then show "findSHA sha256_hex [''/data/g'' \<mapsto> Regular ?big] ''/data/g''
      = Inr [sha256_hex ?big, sha256_hex (replicate 1024 CHR ''a''), sha256_hex (replicate 1024 CHR ''a'')]"
    unfolding pc2 blocks by simp
qed

subsection \<open>C4: the reply to \<open>give_piece_info\<close>\<close>

text \<open>
  C4.  For a request \<open>give_piece_info F G\<close>: when the registry has no entry for \<open>(F, G)\<close>, or
  the path recorded for it has no piece list, the payload is a single space; otherwise
  the payload is each recorded piece number, in the order of the list, written in
  decimal after a space, and its tokens are exactly the recorded piece numbers.
\<close>

theorem give_piece_info_payload:
  assumes tokens: "tokenize command CHR '' '' = [''give_piece_info'', F, G]"
  shows "(m_fileNameToFilePath st (F, G) = None \<longrightarrow>
            fst (executeCommand dsk st command) = Inr '' '')
       \<and> (\<forall>filePath. m_fileNameToFilePath st (F, G) = Some filePath
              \<and> m_filePathToAvailablePieces st filePath = None \<longrightarrow>
            fst (executeCommand dsk st command) = Inr '' '')
       \<and> (\<forall>filePath pieces. m_fileNameToFilePath st (F, G) = Some filePath
              \<and> m_filePathToAvailablePieces st filePath = Some pieces \<longrightarrow>
            (\<exists>payload. fst (executeCommand dsk st command) = Inr payload
               \<and> payload = concat (map (\<lambda>n. '' '' @ to_string n) pieces)
               \<and> tokenize payload CHR '' '' = map to_string pieces))"
  by (simp add: executeCommand_give_piece_info [OF tokens] give_piece_info_def tokenize_piece_list_Cons)

text \<open>One registry for each of the three cases.\<close>

theorem give_piece_info_payload_witness:
  "fst (executeCommand Map.empty
          \<lparr>m_fileNameToFilePath = Map.empty, m_filePathToAvailablePieces = Map.empty\<rparr>
          ''give_piece_info f g'') = Inr '' ''
   \<and> fst (executeCommand Map.empty
          \<lparr>m_fileNameToFilePath = [(''f'', ''g'') \<mapsto> ''/data/f''], m_filePathToAvailablePieces = Map.empty\<rparr>
          ''give_piece_info f g'') = Inr '' ''
   \<and> fst (executeCommand Map.empty
          \<lparr>m_fileNameToFilePath = [(''f'', ''g'') \<mapsto> ''/data/f''],
           m_filePathToAvailablePieces = [''/data/f'' \<mapsto> [2, 0, 5]]\<rparr>
          ''give_piece_info f g'') = Inr '' 2 0 5''"
  using give_piece_info_payload [OF tokenize_give_piece_info,
      of "\<lparr>m_fileNameToFilePath = Map.empty, m_filePathToAvailablePieces = Map.empty\<rparr>" Map.empty]
    give_piece_info_payload [OF tokenize_give_piece_info,
      of "\<lparr>m_fileNameToFilePath = [(''f'', ''g'') \<mapsto> ''/data/f''], m_filePathToAvailablePieces = Map.empty\<rparr>"
         Map.empty]
    give_piece_info_payload [OF tokenize_give_piece_info,
      of "\<lparr>m_fileNameToFilePath = [(''f'', ''g'') \<mapsto> ''/data/f''],
           m_filePathToAvailablePieces = [''/data/f'' \<mapsto> [2, 0, 5]]\<rparr>" Map.empty]
  by (simp add: to_string_0_2_5)

subsection \<open>C5: \<open>give_piece\<close> without the piece\<close>

text \<open>
  C5.  The claim is that a request \<open>give_piece F G N\<close> is answered with an error whenever the
  peer does not hold piece \<open>N\<close>.  \<open>executeCommand\<close> converts the last token with \<open>stoi\<close> before
  it looks anything up, and \<open>handleLeecher\<close> catches strings only, although
  \<open>executeCommand\<close> is documented to throw a string on every error.  With an empty
  registry, the requests \<open>give_piece f g 2147483648\<close> and \<open>give_piece f g abc\<close> leave
  \<open>executeCommand\<close> with \<open>std::out_of_range\<close> and \<open>std::invalid_argument\<close>, and no reply is
  sent.
\<close>

theorem give_piece_unconverted_index_no_reply:
  "m_fileNameToFilePath \<lparr>m_fileNameToFilePath = Map.empty, m_filePathToAvailablePieces = Map.empty\<rparr>
      (''f'', ''g'') = None
   \<and> fst (executeCommand Map.empty
          \<lparr>m_fileNameToFilePath = Map.empty, m_filePathToAvailablePieces = Map.empty\<rparr>
          ''give_piece f g 2147483648'') = Inl OutOfRange
   \<and> fst (handleLeecher_reply Map.empty
          \<lparr>m_fileNameToFilePath = Map.empty, m_filePathToAvailablePieces = Map.empty\<rparr>
          ''give_piece f g 2147483648'') = None
   \<and> fst (executeCommand Map.empty
          \<lparr>m_fileNameToFilePath = Map.empty, m_filePathToAvailablePieces = Map.empty\<rparr>
          ''give_piece f g abc'') = Inl InvalidArgument
   \<and> fst (handleLeecher_reply Map.empty
          \<lparr>m_fileNameToFilePath = Map.empty, m_filePathToAvailablePieces = Map.empty\<rparr>
          ''give_piece f g abc'') = None"
proof -
  have big: "executeCommand Map.empty
          \<lparr>m_fileNameToFilePath = Map.empty, m_filePathToAvailablePieces = Map.empty\<rparr>
          ''give_piece f g 2147483648''
      = (Inl OutOfRange, \<lparr>m_fileNameToFilePath = Map.empty, m_filePathToAvailablePieces = Map.empty\<rparr>)"
    unfolding executeCommand_def by (simp add: tokenize_give_piece_big stoi_big)
  have abc: "executeCommand Map.empty
          \<lparr>m_fileNameToFilePath = Map.empty, m_filePathToAvailablePieces = Map.empty\<rparr>
          ''give_piece f g abc''
      = (Inl InvalidArgument, \<lparr>m_fileNameToFilePath = Map.empty, m_filePathToAvailablePieces = Map.empty\<rparr>)"
    unfolding executeCommand_def by (simp add: tokenize_give_piece_abc stoi_abc)
  show ?thesis
    by (simp add: handleLeecher_reply_def big abc)
qed

subsection \<open>C6: the piece lists only grow\<close>

text \<open>
  C6.  Over any sequence of the operations \<open>addFilepath\<close>, \<open>addPieceToFilepath\<close>,
  \<open>giveFilePath\<close>, \<open>giveAvailablePieces\<close>, \<open>isPieceAvailable\<close> and of commands executed by
  the seeder, a piece number recorded for a path before the sequence is still recorded
  for that path after it.
\<close>

theorem piece_set_grows:
  "n \<in> pieces_of st filePath \<Longrightarrow> n \<in> pieces_of (run_ops dsk st ops) filePath"
  unfolding run_ops_def
proof (induction ops arbitrary: st)
  case Nil
  then show ?case by simp
next
  case (Cons op ops)
  from Cons.prems have "n \<in> pieces_of (apply_op dsk st op) filePath"
    by (rule apply_op_keeps_piece)
  then show ?case using Cons.IH by simp
qed

text \<open>Piece 3 of a path survives a sequence that uses every kind of operation.\<close>

theorem piece_set_grows_witness:
  "3 \<in> pieces_of \<lparr>m_fileNameToFilePath = [(''f'', ''g'') \<mapsto> ''/data/f''],
                   m_filePathToAvailablePieces = [''/data/f'' \<mapsto> [3]]\<rparr> ''/data/f''
   \<and> 3 \<in> pieces_of
        (run_ops Map.empty
           \<lparr>m_fileNameToFilePath = [(''f'', ''g'') \<mapsto> ''/data/f''],
            m_filePathToAvailablePieces = [''/data/f'' \<mapsto> [3]]\<rparr>
           [AddPieceToFilepath ''/data/f'' 4, SeederCommand ''give_piece_info f g'',
            AddFilepath ''f'' ''h'' ''/data/f'', IsPieceAvailable ''/data/f'' 7,
            SeederCommand ''give_piece f g 3'', GiveAvailablePieces ''/data/f'',
            GiveFilePath ''f'' ''g''])
        ''/data/f''"
  using piece_set_grows [of 3 "\<lparr>m_fileNameToFilePath = [(''f'', ''g'') \<mapsto> ''/data/f''],
                   m_filePathToAvailablePieces = [''/data/f'' \<mapsto> [3]]\<rparr>" "''/data/f''" Map.empty
           "[AddPieceToFilepath ''/data/f'' 4, SeederCommand ''give_piece_info f g'',
            AddFilepath ''f'' ''h'' ''/data/f'', IsPieceAvailable ''/data/f'' 7,
            SeederCommand ''give_piece f g 3'', GiveAvailablePieces ''/data/f'',
            GiveFilePath ''f'' ''g'']"]
  by (simp add: pieces_of_def)

subsection \<open>C7: registering a piece twice\<close>

text \<open>
  C7, as amended.  \<open>addPieceToFilepath(path, n)\<close> appends \<open>n\<close> to the piece list of \<open>path\<close>
  (an empty list if the path had none) and changes nothing else.  When \<open>n\<close> was already
  recorded, the set of piece numbers recorded for \<open>path\<close> is unchanged, but the list holds
  \<open>n\<close> once more.
\<close>

theorem addPieceToFilepath_appends:
  "m_filePathToAvailablePieces (addPieceToFilepath filePath n st) filePath =
      Some ((case m_filePathToAvailablePieces st filePath of None \<Rightarrow> [] | Some pieces \<Rightarrow> pieces) @ [n])
   \<and> (\<forall>other. other \<noteq> filePath \<longrightarrow>
         m_filePathToAvailablePieces (addPieceToFilepath filePath n st) other
           = m_filePathToAvailablePieces st other)
   \<and> m_fileNameToFilePath (addPieceToFilepath filePath n st) = m_fileNameToFilePath st
   \<and> (isPieceAvailable filePath n st \<longrightarrow>
         pieces_of (addPieceToFilepath filePath n st) filePath = pieces_of st filePath)"
  by (auto simp: addPieceToFilepath_def isPieceAvailable_def pieces_of_def split: option.splits)

text \<open>Piece 3 registered a second time.\<close>

theorem addPieceToFilepath_appends_witness:
  "isPieceAvailable ''/data/f'' 3
      \<lparr>m_fileNameToFilePath = [(''f'', ''g'') \<mapsto> ''/data/f''],
       m_filePathToAvailablePieces = [''/data/f'' \<mapsto> [3]]\<rparr>
   \<and> m_filePathToAvailablePieces (addPieceToFilepath ''/data/f'' 3
        \<lparr>m_fileNameToFilePath = [(''f'', ''g'') \<mapsto> ''/data/f''],
         m_filePathToAvailablePieces = [''/data/f'' \<mapsto> [3]]\<rparr>) ''/data/f'' = Some [3, 3]
   \<and> m_filePathToAvailablePieces (addPieceToFilepath ''/data/f'' 3
        \<lparr>m_fileNameToFilePath = [(''f'', ''g'') \<mapsto> ''/data/f''],
         m_filePathToAvailablePieces = [''/data/f'' \<mapsto> [3]]\<rparr>) ''/data/h'' = None
   \<and> pieces_of (addPieceToFilepath ''/data/f'' 3
        \<lparr>m_fileNameToFilePath = [(''f'', ''g'') \<mapsto> ''/data/f''],
         m_filePathToAvailablePieces = [''/data/f'' \<mapsto> [3]]\<rparr>) ''/data/f'' = {3}"
  using addPieceToFilepath_appends [of "''/data/f''" 3
      "\<lparr>m_fileNameToFilePath = [(''f'', ''g'') \<mapsto> ''/data/f''],
        m_filePathToAvailablePieces = [''/data/f'' \<mapsto> [3]]\<rparr>"]
  by (simp add: isPieceAvailable_def pieces_of_def)

text \<open>
  The claim that the collection stays equal and free of duplicates fails there: the list
  becomes \<open>[3, 3]\<close> and \<open>give_piece_info\<close> lists the piece twice.
\<close>

theorem addPieceToFilepath_duplicate_counterexample:
  "isPieceAvailable ''/data/f'' 3
      \<lparr>m_fileNameToFilePath = [(''f'', ''g'') \<mapsto> ''/data/f''],
       m_filePathToAvailablePieces = [''/data/f'' \<mapsto> [3]]\<rparr>
   \<and> m_filePathToAvailablePieces (addPieceToFilepath ''/data/f'' 3
        \<lparr>m_fileNameToFilePath = [(''f'', ''g'') \<mapsto> ''/data/f''],
         m_filePathToAvailablePieces = [''/data/f'' \<mapsto> [3]]\<rparr>) ''/data/f''
       \<noteq> m_filePathToAvailablePieces
        \<lparr>m_fileNameToFilePath = [(''f'', ''g'') \<mapsto> ''/data/f''],
         m_filePathToAvailablePieces = [''/data/f'' \<mapsto> [3]]\<rparr> ''/data/f''
   \<and> \<not> distinct (the (m_filePathToAvailablePieces (addPieceToFilepath ''/data/f'' 3
        \<lparr>m_fileNameToFilePath = [(''f'', ''g'') \<mapsto> ''/data/f''],
         m_filePathToAvailablePieces = [''/data/f'' \<mapsto> [3]]\<rparr>) ''/data/f''))
   \<and> fst (executeCommand Map.empty (addPieceToFilepath ''/data/f'' 3
        \<lparr>m_fileNameToFilePath = [(''f'', ''g'') \<mapsto> ''/data/f''],
         m_filePathToAvailablePieces = [''/data/f'' \<mapsto> [3]]\<rparr>) ''give_piece_info f g'')
       = Inr '' 3 3''"
  by (simp add: isPieceAvailable_def addPieceToFilepath_def
        executeCommand_give_piece_info [OF tokenize_give_piece_info] give_piece_info_def to_string_3)

subsection \<open>C8: \<open>show_downloads\<close>\<close>

text \<open>
  C8, as amended.  \<open>processUserRequests\<close> hands an input line whose first token is
  \<open>show_downloads\<close> to \<open>showDownloads\<close>.  The command sends exactly one message to the tracker,
  the input line followed by a space and the session token.  What it prints is the
  tracker's response in green; an error response or a socket failure is thrown as an
  exception instead.  The sets of downloading, downloaded and failed files are
  neither read nor changed: the message sent and the output are the same whatever
  they hold.
\<close>

theorem showDownloads_asks_tracker:
  assumes tokens: "tokens \<noteq> []" "tokens ! 0 = ''show_downloads''"
  shows "showDownloads tracker st tokens inputFromClient =
           ([inputFromClient @ '' '' @ m_authToken st],
            (case tracker (inputFromClient @ '' '' @ m_authToken st) of
               Inl e \<Rightarrow> Inl e
             | Inr response \<Rightarrow>
                 (case checkForError response of
                    Inl e \<Rightarrow> Inl e
                  | Inr _ \<Rightarrow> Inr (GREEN @ response @ [CHR 0x0A] @ RESET))),
            st)
       \<and> fst (showDownloads tracker
              (st\<lparr>m_downloadingFiles := downloading, m_downloadedFiles := downloaded,
                  m_downloadFailFiles := failed\<rparr>) tokens inputFromClient)
           = fst (showDownloads tracker st tokens inputFromClient)
       \<and> fst (snd (showDownloads tracker
              (st\<lparr>m_downloadingFiles := downloading, m_downloadedFiles := downloaded,
                  m_downloadFailFiles := failed\<rparr>) tokens inputFromClient))
           = fst (snd (showDownloads tracker st tokens inputFromClient))"
proof -
  have pr: "printResponse tokens response = Inr (GREEN @ response @ [CHR 0x0A] @ RESET)" for response
    using tokens by (simp add: printResponse_def)
  have sd: "showDownloads tracker s tokens inputFromClient =
           ([inputFromClient @ '' '' @ m_authToken s],
            (case tracker (inputFromClient @ '' '' @ m_authToken s) of
               Inl e \<Rightarrow> Inl e
             | Inr response \<Rightarrow>
                 (case checkForError response of
                    Inl e \<Rightarrow> Inl e
                  | Inr _ \<Rightarrow> Inr (GREEN @ response @ [CHR 0x0A] @ RESET))),
            s)" for s
    by (simp add: showDownloads_def sendTracker_def pr split: sum.splits)
  show ?thesis
    by (simp add: sd)
qed

text \<open>A leecher with entries in two of the sets, talking to a tracker that rejects the command.\<close>

theorem showDownloads_asks_tracker_witness:
  "showDownloads rejecting_tracker
      \<lparr>m_authToken = ''tok'', m_downloadingFiles = {(''g'', ''a.txt'')},
       m_downloadedFiles = {(''g'', ''b.txt'')}, m_downloadFailFiles = {}\<rparr>
      [''show_downloads''] ''show_downloads''
    = ([''show_downloads tok''], Inl (Thrown ''Invalid command!!''),
       \<lparr>m_authToken = ''tok'', m_downloadingFiles = {(''g'', ''a.txt'')},
        m_downloadedFiles = {(''g'', ''b.txt'')}, m_downloadFailFiles = {}\<rparr>)"
  using showDownloads_asks_tracker [of "[''show_downloads'']" rejecting_tracker
      "\<lparr>m_authToken = ''tok'', m_downloadingFiles = {(''g'', ''a.txt'')},
        m_downloadedFiles = {(''g'', ''b.txt'')}, m_downloadFailFiles = {}\<rparr>" "''show_downloads''"]
  by (simp add: rejecting_tracker_def checkForError_def)

text \<open>
  The claim that no command is sent to the tracker fails there: the message
  \<open>show_downloads tok\<close> is sent, and the result is the tracker's answer, not the sets.
\<close>

theorem showDownloads_sends_counterexample:
  "fst (showDownloads rejecting_tracker
      \<lparr>m_authToken = ''tok'', m_downloadingFiles = {(''g'', ''a.txt'')},
       m_downloadedFiles = {(''g'', ''b.txt'')}, m_downloadFailFiles = {}\<rparr>
      [''show_downloads''] ''show_downloads'') = [''show_downloads tok'']
   \<and> fst (snd (showDownloads rejecting_tracker
      \<lparr>m_authToken = ''tok'', m_downloadingFiles = {(''g'', ''a.txt'')},
       m_downloadedFiles = {(''g'', ''b.txt'')}, m_downloadFailFiles = {}\<rparr>
      [''show_downloads''] ''show_downloads'')) = Inl (Thrown ''Invalid command!!'')"
  by (simp add: showDownloads_def sendTracker_def rejecting_tracker_def checkForError_def)

subsection \<open>C9: what \<open>give_piece_info\<close> changes\<close>

text \<open>
  C9, as amended.  A request \<open>give_piece_info F G\<close> never changes the map from paths to
  piece lists.  It leaves the map from (file name, group name) to paths unchanged too,
  except when \<open>(F, G)\<close> is recorded and its path has no piece list: then it erases the
  entry of \<open>(F, G)\<close>.
\<close>

theorem give_piece_info_frame:
  assumes tokens: "tokenize command CHR '' '' = [''give_piece_info'', F, G]"
  shows "m_filePathToAvailablePieces (snd (executeCommand dsk st command)) = m_filePathToAvailablePieces st
       \<and> m_fileNameToFilePath (snd (executeCommand dsk st command)) =
           (if \<exists>filePath. m_fileNameToFilePath st (F, G) = Some filePath
                  \<and> m_filePathToAvailablePieces st filePath = None
            then (m_fileNameToFilePath st)((F, G) := None)
            else m_fileNameToFilePath st)"
  by (auto simp: executeCommand_give_piece_info [OF tokens] give_piece_info_def split: option.splits)

text \<open>A registry that is left alone and one whose entry is erased.\<close>

theorem give_piece_info_frame_witness:
  "m_fileNameToFilePath (snd (executeCommand Map.empty
        \<lparr>m_fileNameToFilePath = [(''f'', ''g'') \<mapsto> ''/data/f''],
         m_filePathToAvailablePieces = [''/data/f'' \<mapsto> [3]]\<rparr> ''give_piece_info f g''))
     = [(''f'', ''g'') \<mapsto> ''/data/f'']
   \<and> m_filePathToAvailablePieces (snd (executeCommand Map.empty
        \<lparr>m_fileNameToFilePath = [(''f'', ''g'') \<mapsto> ''/data/f''],
         m_filePathToAvailablePieces = [''/data/f'' \<mapsto> [3]]\<rparr> ''give_piece_info f g''))
     = [''/data/f'' \<mapsto> [3]]
   \<and> m_fileNameToFilePath (snd (executeCommand Map.empty
        \<lparr>m_fileNameToFilePath = [(''f'', ''g'') \<mapsto> ''/data/f''],
         m_filePathToAvailablePieces = Map.empty\<rparr> ''give_piece_info f g''))
     = Map.empty"
  using give_piece_info_frame [OF tokenize_give_piece_info,
      of Map.empty "\<lparr>m_fileNameToFilePath = [(''f'', ''g'') \<mapsto> ''/data/f''],
         m_filePathToAvailablePieces = [''/data/f'' \<mapsto> [3]]\<rparr>"]
    give_piece_info_frame [OF tokenize_give_piece_info,
      of Map.empty "\<lparr>m_fileNameToFilePath = [(''f'', ''g'') \<mapsto> ''/data/f''],
         m_filePathToAvailablePieces = Map.empty\<rparr>"]
  by simp

text \<open>
  The claim that both maps are always the same afterwards fails on a registry that
  records a path for \<open>(f, g)\<close> and no piece list for that path.
\<close>

theorem give_piece_info_erases_counterexample:
  "m_fileNameToFilePath (snd (executeCommand Map.empty
        \<lparr>m_fileNameToFilePath = [(''f'', ''g'') \<mapsto> ''/data/f''],
         m_filePathToAvailablePieces = Map.empty\<rparr> ''give_piece_info f g'')) (''f'', ''g'')
     \<noteq> m_fileNameToFilePath
        \<lparr>m_fileNameToFilePath = [(''f'', ''g'') \<mapsto> ''/data/f''],
         m_filePathToAvailablePieces = Map.empty\<rparr> (''f'', ''g'')"
  by (simp add: executeCommand_give_piece_info [OF tokenize_give_piece_info] give_piece_info_def)

subsection \<open>C10: \<open>Logger::log\<close> on empty content\<close>

text \<open>
  C10.  The claim is that \<open>Logger::log\<close> removes the last character of \<open>content\<close> only when
  \<open>content\<close> is not empty and ends in a newline.  The source tests
  \<open>content.empty() || content[content.size() - 1] == '\n'\<close>, so for the empty string it
  calls \<open>pop_back\<close> on an empty string, whatever the time, the log file and the type are.
\<close>

theorem Logger_log_empty_content:
  "Logger_log time logFile write_ok type [] = Inl UndefinedBehaviour"
  by (simp add: Logger_log_def)

end
